theory Spec2Isabelle
  imports Main "HOL-Library.AList"
begin

section \<open>Pipeline manager (pipeline/pipeline_manager.py)\<close>

subsection \<open>Collaborators\<close>

text \<open>
  The \<open>Pipeline\<close> class and Python's \<open>Thread\<close> are collaborators of the manager.
  What a call into them does is a parameter of the model: a call returns or raises an
  \<open>Exception\<close>; the two blocking calls (\<open>pipeline.run()\<close> and \<open>thread.join()\<close>) may also
  never return, which is the value \<open>None\<close>.
\<close>

datatype outcome = Returns | Raises

record pipeline =
  pipeline_id :: nat  \<comment> \<open>the identity of the Python object\<close>
  pipeline_name :: string  \<comment> \<open>\<open>pipeline.name\<close>\<close>
  run :: "outcome option"  \<comment> \<open>\<open>pipeline.run()\<close>\<close>
  stop :: outcome  \<comment> \<open>\<open>pipeline.stop()\<close>\<close>
  stats :: outcome  \<comment> \<open>\<open>pipeline.stats().pretty_print_summary(name)\<close>\<close>
  join :: "outcome option"  \<comment> \<open>\<open>thread.join()\<close> on the thread that executes this pipeline\<close>

record thread =
  tid :: nat  \<comment> \<open>the identity of the \<open>Thread\<close> object\<close>
  target :: pipeline  \<comment> \<open>\<open>Thread(target=run_pipeline, args=([pipeline]))\<close>\<close>

text \<open>The dataclass \<open>PipelineSpec\<close> (lines 12 to 21).\<close>

record PipelineSpec =
  spec_name :: string
  spec_pipeline :: pipeline
  spec_thread :: thread

subsection \<open>Observable effects and the state\<close>

datatype level = DEBUG | INFO | ERROR

datatype event =
    Log level string "nat option"
      \<comment> \<open>a logger call: level, message, and the \<open>limit\<close> of the \<open>traceback.format_exc\<close>
          text appended to the message, if one is\<close>
  | Run pipeline  \<comment> \<open>\<open>pipeline.run()\<close> was called\<close>
  | Stop pipeline  \<comment> \<open>\<open>pipeline.stop()\<close> was called\<close>
  | Join thread "nat option"  \<comment> \<open>\<open>thread.join(timeout)\<close> was called\<close>
  | Stats pipeline string  \<comment> \<open>\<open>pipeline.stats().pretty_print_summary(name)\<close> was called\<close>

text \<open>
  \<open>pipeline_registry\<close> is the class attribute of \<open>PipelineManager\<close> (line 42), a Python
  dict: an association list in insertion order. \<open>threads\<close> are the threads started so
  far, \<open>trace\<close> the calls made so far, oldest first.
\<close>

record world =
  pipeline_registry :: "(string \<times> PipelineSpec) list"
  threads :: "thread list"
  trace :: "event list"

definition initial :: world where
  "initial = \<lparr>pipeline_registry = [], threads = [], trace = []\<rparr>"

text \<open>
  The exceptions the manager raises are plain \<open>Exception\<close>s told apart by their message;
  \<open>KeyError\<close> is the dict's, and \<open>CollaboratorError\<close> is whatever a collaborator raised.
\<close>

datatype error =
    AlreadyRunning string
  | NotFound string
  | TerminationFailed string
  | KeyError string
  | CollaboratorError

fun message :: "error \<Rightarrow> string" where
  "message (AlreadyRunning name) = ''Pipeline with name '' @ name @ '' is already running.''"
| "message (NotFound name) = ''No pipeline with name '' @ name @ '' found.''"
| "message (TerminationFailed name) =
     ''Caught exception while attempting to terminate pipeline with name '' @ name @ ''.''"
| "message (KeyError name) = name"
| "message CollaboratorError = []"

definition emit :: "event \<Rightarrow> world \<Rightarrow> world" where
  "emit e w = w\<lparr>trace := trace w @ [e]\<rparr>"

definition logger :: "level \<Rightarrow> string \<Rightarrow> world \<Rightarrow> world" where
  "logger lvl msg w = emit (Log lvl msg None) w"

definition logger_exc :: "level \<Rightarrow> string \<Rightarrow> nat \<Rightarrow> world \<Rightarrow> world" where
  "logger_exc lvl msg limit w = emit (Log lvl msg (Some limit)) w"

subsection \<open>The worker body\<close>

text \<open>
  \<open>run_pipeline\<close> (lines 26 to 34). The result is \<open>None\<close> when the function never
  returns, \<open>Some (Inl e)\<close> when it raises and \<open>Some (Inr ())\<close> when it returns.
  An exception raised by \<open>pipeline.stop()\<close> inside the handler leaves the function.
\<close>

definition run_pipeline :: "pipeline \<Rightarrow> world \<Rightarrow> (error + unit) option \<times> world" where
  "run_pipeline pipeline w =
     (let w1 = emit (Run pipeline) w in
      case run pipeline of
        None \<Rightarrow> (None, w1)
      | Some Returns \<Rightarrow>
          (Some (Inr ()),
           logger DEBUG (''Thread for pipeline with name '' @ pipeline_name pipeline
                         @ '' has terminated.'') w1)
      | Some Raises \<Rightarrow>
          (let w2 = logger_exc ERROR
                      (''Caught exception while executing pipeline with name ''
                       @ pipeline_name pipeline @ '': '') 3 w1;
               w3 = emit (Stop pipeline) w2
           in case stop pipeline of
                Raises \<Rightarrow> (Some (Inl CollaboratorError), w3)
              | Returns \<Rightarrow>
                  (Some (Inr ()),
                   logger DEBUG (''Thread for pipeline with name '' @ pipeline_name pipeline
                                 @ '' has terminated.'') w3)))"

text \<open>What a started thread executes: its target applied to its argument.\<close>

definition thread_body :: "thread \<Rightarrow> world \<Rightarrow> (error + unit) option \<times> world" where
  "thread_body thread w = run_pipeline (target thread) w"

subsection \<open>The manager's operations\<close>

text \<open>
  \<open>PipelineManager.start_pipeline\<close> (lines 49 to 58). \<open>Thread(...)\<close> makes a new thread
  object and \<open>thread.start()\<close> adds it to the running threads; neither waits for the
  thread's body, so the function has no outcome \<open>None\<close>.
\<close>

definition start_pipeline :: "string \<Rightarrow> pipeline \<Rightarrow> world \<Rightarrow> (error + unit) \<times> world" where
  "start_pipeline name pipeline w =
     (let w1 = logger DEBUG (''Attempting to start pipeline with name '' @ name @ ''...'') w in
      if name \<notin> set (map fst (pipeline_registry w1)) then
        (let thread = \<lparr>tid = length (threads w1), target = pipeline\<rparr>;
             w2 = w1\<lparr>threads := threads w1 @ [thread]\<rparr>;
             spec = \<lparr>spec_name = name, spec_pipeline = pipeline, spec_thread = thread\<rparr>;
             w3 = w2\<lparr>pipeline_registry :=
                       AList.update (pipeline_name pipeline) spec (pipeline_registry w2)\<rparr>
         in (Inr (), logger DEBUG (''Started pipeline with name '' @ name @ ''.'') w3))
      else (Inl (AlreadyRunning name), w1))"

text \<open>The body of the \<open>try\<close> of \<open>terminate_pipeline\<close> (lines 66 to 73).\<close>

definition terminate_pipeline_try :: "string \<Rightarrow> world \<Rightarrow> (error + unit) option \<times> world" where
  "terminate_pipeline_try name w =
     (case map_of (pipeline_registry w) name of
        None \<Rightarrow> (Some (Inl (KeyError name)), w)
      | Some pipeline_spec \<Rightarrow>
          (let w1 = emit (Stop (spec_pipeline pipeline_spec)) w in
           case stop (spec_pipeline pipeline_spec) of
             Raises \<Rightarrow> (Some (Inl CollaboratorError), w1)
           | Returns \<Rightarrow>
               (let w2 = emit (Join (spec_thread pipeline_spec) None) w1 in
                case join (target (spec_thread pipeline_spec)) of
                  None \<Rightarrow> (None, w2)
                | Some Raises \<Rightarrow> (Some (Inl CollaboratorError), w2)
                | Some Returns \<Rightarrow>
                    (let w3 = logger INFO (''Actions Pipeline with name '' @ [CHR 0x27] @ name
                                           @ [CHR 0x27] @ '' has been stopped.'') w2;
                         w4 = emit (Stats (spec_pipeline pipeline_spec) name) w3
                     in case stats (spec_pipeline pipeline_spec) of
                          Raises \<Rightarrow> (Some (Inl CollaboratorError), w4)
                        | Returns \<Rightarrow>
                            (Some (Inr ()),
                             w4\<lparr>pipeline_registry :=
                                  AList.delete name (pipeline_registry w4)\<rparr>)))))"

text \<open>
  \<open>PipelineManager.terminate_pipeline\<close> (lines 61 to 84): the \<open>except Exception\<close> handler
  logs and raises the manager's own exception for every exception of the \<open>try\<close> body.
\<close>

definition terminate_pipeline :: "string \<Rightarrow> world \<Rightarrow> (error + unit) option \<times> world" where
  "terminate_pipeline name w =
     (let w1 = logger DEBUG (''Attempting to terminate pipeline with name '' @ name @ ''...'') w in
      if name \<in> set (map fst (pipeline_registry w1)) then
        (case terminate_pipeline_try name w1 of
           (None, w2) \<Rightarrow> (None, w2)
         | (Some (Inr u), w2) \<Rightarrow> (Some (Inr u), w2)
         | (Some (Inl e), w2) \<Rightarrow>
             (Some (Inl (TerminationFailed name)),
              logger_exc ERROR
                (''Caught exception while attempting to terminate pipeline with name ''
                 @ name @ '': '') 3 w2))
      else (Some (Inl (NotFound name)), w1))"

text \<open>
  \<open>PipelineManager.terminate_all\<close> (lines 87 to 93). The loop over the copied list of
  names stops at the first call that does not return.
\<close>

fun terminate_names :: "string list \<Rightarrow> world \<Rightarrow> (error + unit) option \<times> world" where
  "terminate_names [] w = (Some (Inr ()), w)"
| "terminate_names (name # names) w =
     (case terminate_pipeline name w of
        (Some (Inr u), w1) \<Rightarrow> terminate_names names w1
      | (r, w1) \<Rightarrow> (r, w1))"

definition terminate_all :: "world \<Rightarrow> (error + unit) option \<times> world" where
  "terminate_all w =
     (let w1 = logger DEBUG ''Attempting to terminate all running pipelines...'' w;
          names = map fst (pipeline_registry w1)
      in case terminate_names names w1 of
           (Some (Inr u), w2) \<Rightarrow>
             (Some (Inr ()), logger DEBUG ''Successfully terminated all running pipelines.'' w2)
         | (r, w2) \<Rightarrow> (r, w2))"

subsection \<open>Reading a trace\<close>

text \<open>The collaborator calls of a trace, in order: the trace without its log lines.\<close>

fun is_call :: "event \<Rightarrow> bool" where
  "is_call (Log lvl msg tb) = False"
| "is_call e = True"

definition calls :: "event list \<Rightarrow> event list" where
  "calls tr = filter is_call tr"

subsection \<open>Vocabulary of the properties\<close>

text \<open>A registered pipeline whose \<open>stop()\<close>, worker join and statistics all return.\<close>

definition terminates_cleanly :: "PipelineSpec \<Rightarrow> bool" where
  "terminates_cleanly ps \<longleftrightarrow>
     stop (spec_pipeline ps) = Returns \<and> join (target (spec_thread ps)) = Some Returns \<and>
     stats (spec_pipeline ps) = Returns"

text \<open>
  A pipeline whose collaborator calls all return; its \<open>run()\<close> returns once it has been
  asked to stop.
\<close>

definition healthy :: "nat \<Rightarrow> string \<Rightarrow> pipeline" where
  "healthy i n =
     \<lparr>pipeline_id = i, pipeline_name = n, run = Some Returns, stop = Returns,
      stats = Returns, join = Some Returns\<rparr>"

text \<open>The message logged once the worker has been joined (line 69).\<close>

definition stopped_msg :: "string \<Rightarrow> string" where
  "stopped_msg name = ''Actions Pipeline with name '' @ [CHR 0x27] @ name @ [CHR 0x27] @ '' has been stopped.''"

text \<open>The state after one \<open>start_pipeline\<close> on the empty registry.\<close>

definition registered :: "string \<Rightarrow> pipeline \<Rightarrow> world" where
  "registered name pipeline = snd (start_pipeline name pipeline initial)"

text \<open>The message of the \<open>except\<close> handler of \<open>terminate_pipeline\<close> (line 78), before the traceback.\<close>

definition handler_msg :: "string \<Rightarrow> string" where
  "handler_msg name =
     ''Caught exception while attempting to terminate pipeline with name '' @ name @ '': ''"

text \<open>The message logged by the worker when \<open>pipeline.run()\<close> raises (line 31), before the traceback.\<close>

definition crash_msg :: "pipeline \<Rightarrow> string" where
  "crash_msg pipeline =
     ''Caught exception while executing pipeline with name '' @ pipeline_name pipeline @ '': ''"

text \<open>The thread object that \<open>start_pipeline\<close> makes in state \<open>w\<close>.\<close>

definition new_thread :: "pipeline \<Rightarrow> world \<Rightarrow> thread" where
  "new_thread pipeline w = \<lparr>tid = length (threads w), target = pipeline\<rparr>"

text \<open>The collaborator calls of one clean termination of a registered record.\<close>

definition termination_calls :: "string \<times> PipelineSpec \<Rightarrow> event list" where
  "termination_calls entry =
     [Stop (spec_pipeline (snd entry)), Join (spec_thread (snd entry)) None,
      Stats (spec_pipeline (snd entry)) (fst entry)]"

text \<open>
  How \<open>terminate_pipeline\<close> ends for a record that does not terminate cleanly, and the
  calls it has made by then.
\<close>

definition failure :: "string \<Rightarrow> PipelineSpec \<Rightarrow> (error + unit) option" where
  "failure name ps =
     (if stop (spec_pipeline ps) = Returns \<and> join (target (spec_thread ps)) = None then None
      else Some (Inl (TerminationFailed name)))"

definition failed_calls :: "string \<Rightarrow> PipelineSpec \<Rightarrow> event list" where
  "failed_calls name ps =
     (case stop (spec_pipeline ps) of
        Raises \<Rightarrow> [Stop (spec_pipeline ps)]
      | Returns \<Rightarrow>
          (case join (target (spec_thread ps)) of
             Some Returns \<Rightarrow> termination_calls (name, ps)
           | _ \<Rightarrow> [Stop (spec_pipeline ps), Join (spec_thread ps) None]))"

text \<open>Three pipelines started as \<open>a\<close>, \<open>b\<close> and \<open>c\<close> on the empty registry; the second is a parameter.\<close>

definition started_abc :: "pipeline \<Rightarrow> world" where
  "started_abc b =
     snd (start_pipeline ''c'' (healthy 2 ''c'')
       (snd (start_pipeline ''b'' b (registered ''a'' (healthy 0 ''a'')))))"

section \<open>Event registry (event/event_registry.py)\<close>

subsection \<open>Python values and the field stores\<close>

text \<open>The values that a field store and a JSON object hold.\<close>

datatype pyval =
    PNone
  | PBool bool
  | PInt int
  | PStr string
  | PList "pyval list"
  | PDict "(string \<times> pyval) list"

type_synonym pydict = "(string \<times> pyval) list"

type_synonym addr = nat

datatype event_class =
    MetadataChangeLogClass
  | EntityChangeEventClass
  | MetadataChangeLogEvent
  | EntityChangeEvent

text \<open>
  An instance of a schema class holds, in its attribute \<open>_inner_dict\<close>, a reference to a
  dict object: its field store. The dict objects live in a heap; \<open>fresh\<close> is the next
  unused address.
\<close>

record wrapper =
  wrapper_class :: event_class
  inner_dict :: addr

record heap =
  dicts :: "addr \<Rightarrow> pydict"
  fresh :: addr

definition field_store :: "heap \<Rightarrow> wrapper \<Rightarrow> pydict" where
  "field_store h self = dicts h (inner_dict self)"

text \<open>\<open>self._inner_dict[key]\<close> when \<open>key in self._inner_dict\<close>, and \<open>None\<close> when it is not.\<close>

definition get_item :: "wrapper \<Rightarrow> string \<Rightarrow> heap \<Rightarrow> pyval option" where
  "get_item self key h = map_of (field_store h self) key"

text \<open>\<open>self._inner_dict[key] = v\<close>.\<close>

definition set_item :: "wrapper \<Rightarrow> string \<Rightarrow> pyval \<Rightarrow> heap \<Rightarrow> heap" where
  "set_item self key v h =
     h\<lparr>dicts := (dicts h)(inner_dict self := AList.update key v (field_store h self))\<rparr>"

subsection \<open>The event classes\<close>

text \<open>
  \<open>from_class\<close> of \<open>MetadataChangeLogEvent\<close> (lines 32 to 38) and of \<open>EntityChangeEvent\<close>
  (lines 52 to 58): the same body, \<open>cls\<close> being the class it is called on. The schema
  classes are generated code outside the repository, so \<open>cls.construct\<close> and
  \<open>_restore_defaults\<close> are parameters: any functions on the heap.
\<close>

definition from_class ::
  "(event_class \<Rightarrow> pydict \<Rightarrow> heap \<Rightarrow> wrapper \<times> heap) \<Rightarrow> (wrapper \<Rightarrow> heap \<Rightarrow> heap) \<Rightarrow>
   event_class \<Rightarrow> wrapper \<Rightarrow> heap \<Rightarrow> wrapper \<times> heap" where
  "from_class construct restore_defaults cls clazz h =
     (let (instance, h1) = construct cls [] h;
          h2 = restore_defaults instance h1;
          instance = instance\<lparr>inner_dict := inner_dict clazz\<rparr>
      in (instance, h2))"

text \<open>
  \<open>from_json\<close> of both classes (lines 40 to 43 and 60 to 63), with \<open>json.loads\<close> and the
  generated \<open>from_obj\<close> as parameters.
\<close>

definition from_json :: "(string \<Rightarrow> 'j) \<Rightarrow> (event_class \<Rightarrow> 'j \<Rightarrow> bool \<Rightarrow> 'e) \<Rightarrow> event_class \<Rightarrow> string \<Rightarrow> 'e" where
  "from_json loads from_obj cls json_str = (let json_obj = loads json_str in from_obj cls json_obj True)"

text \<open>
  \<open>MetadataChangeLogEvent.as_json\<close> (lines 45 and 46), with the generated \<open>to_obj\<close> and
  \<open>json.dumps\<close> as parameters. \<open>to_obj\<close> reads the event and returns a new dict.
\<close>

definition MetadataChangeLogEvent_as_json ::
  "(wrapper \<Rightarrow> heap \<Rightarrow> pydict) \<Rightarrow> (pyval \<Rightarrow> 'r) \<Rightarrow> wrapper \<Rightarrow> heap \<Rightarrow> 'r" where
  "MetadataChangeLogEvent_as_json to_obj dumps self h = dumps (PDict (to_obj self h))"

text \<open>\<open>EntityChangeEvent.as_json\<close> (lines 65 to 71).\<close>

definition EntityChangeEvent_as_json ::
  "(wrapper \<Rightarrow> heap \<Rightarrow> pydict) \<Rightarrow> (pyval \<Rightarrow> 'r) \<Rightarrow> wrapper \<Rightarrow> heap \<Rightarrow> 'r" where
  "EntityChangeEvent_as_json to_obj dumps self h =
     (let json_obj = to_obj self h;
          json_obj = AList.update ''parameters''
                       (if ''parameters'' \<in> set (map fst (field_store h self))
                        then the (map_of (field_store h self) ''parameters'')
                        else PDict [])
                       json_obj
      in dumps (PDict json_obj))"

text \<open>
  Instances of the two library functions, for examples: \<open>construct\<close> makes an instance
  whose field store is a new dict holding the given items, and \<open>_restore_defaults\<close>
  writes the default value of every field of the class into the instance's field store.
\<close>

definition construct_new :: "event_class \<Rightarrow> pydict \<Rightarrow> heap \<Rightarrow> wrapper \<times> heap" where
  "construct_new cls items h =
     (\<lparr>wrapper_class = cls, inner_dict = fresh h\<rparr>,
      h\<lparr>dicts := (dicts h)(fresh h := items), fresh := Suc (fresh h)\<rparr>)"

definition restore_with :: "(event_class \<Rightarrow> pydict) \<Rightarrow> wrapper \<Rightarrow> heap \<Rightarrow> heap" where
  "restore_with defaults self h =
     h\<lparr>dicts := (dicts h)(inner_dict self :=
           fold (\<lambda>(key, v). AList.update key v) (defaults (wrapper_class self))
             (field_store h self))\<rparr>"

section \<open>Properties of the pipeline manager\<close>

subsection \<open>Frame lemmas\<close>

lemma emit_fields:
  "pipeline_registry (emit e w) = pipeline_registry w"
  "threads (emit e w) = threads w"
  "trace (emit e w) = trace w @ [e]"
  by (simp_all add: emit_def)

lemma logger_fields:
  "pipeline_registry (logger lvl msg w) = pipeline_registry w"
  "threads (logger lvl msg w) = threads w"
  "trace (logger lvl msg w) = trace w @ [Log lvl msg None]"
  by (simp_all add: logger_def emit_def)

lemma logger_exc_fields:
  "pipeline_registry (logger_exc lvl msg n w) = pipeline_registry w"
  "threads (logger_exc lvl msg n w) = threads w"
  "trace (logger_exc lvl msg n w) = trace w @ [Log lvl msg (Some n)]"
  by (simp_all add: logger_exc_def emit_def)

lemmas fields = emit_fields logger_fields logger_exc_fields

lemma key_present: "map_of reg name = Some ps \<Longrightarrow> name \<in> set (map fst reg)"
  by (metis map_of_eq_None_iff option.distinct(1) set_map)

lemma calls_append [simp]: "calls (xs @ ys) = calls xs @ calls ys"
  by (simp add: calls_def)

lemma calls_simps [simp]:
  "calls [] = []"
  "calls (Log lvl msg tb # tr) = calls tr"
  "calls (Stop p # tr) = Stop p # calls tr"
  "calls (Run p # tr) = Run p # calls tr"
  "calls (Join t n # tr) = Join t n # calls tr"
  "calls (Stats p s # tr) = Stats p s # calls tr"
  by (simp_all add: calls_def)

lemma registered_registry:
  "pipeline_registry (registered name pipeline) =
     [(pipeline_name pipeline,
       \<lparr>spec_name = name, spec_pipeline = pipeline,
        spec_thread = \<lparr>tid = 0, target = pipeline\<rparr>\<rparr>)]"
  by (simp add: registered_def start_pipeline_def initial_def Let_def fields)

subsection \<open>Terminating one pipeline\<close>

lemma terminate_absent:
  assumes "name \<notin> set (map fst (pipeline_registry w))"
  shows "terminate_pipeline name w =
     (Some (Inl (NotFound name)),
      logger DEBUG (''Attempting to terminate pipeline with name '' @ name @ ''...'') w)"
  using assms by (simp add: terminate_pipeline_def Let_def fields)

text \<open>The four ways the try body ends for a registered name.\<close>

lemma try_stop_raises:
  assumes "map_of (pipeline_registry w) name = Some ps" "stop (spec_pipeline ps) = Raises"
  shows "terminate_pipeline_try name w =
    (Some (Inl CollaboratorError), emit (Stop (spec_pipeline ps)) w)"
  using assms by (simp add: terminate_pipeline_try_def Let_def)

lemma try_join_raises:
  assumes "map_of (pipeline_registry w) name = Some ps" "stop (spec_pipeline ps) = Returns"
    "join (target (spec_thread ps)) = Some Raises"
  shows "terminate_pipeline_try name w =
    (Some (Inl CollaboratorError),
     emit (Join (spec_thread ps) None) (emit (Stop (spec_pipeline ps)) w))"
  using assms by (simp add: terminate_pipeline_try_def Let_def)

lemma try_join_blocks:
  assumes "map_of (pipeline_registry w) name = Some ps" "stop (spec_pipeline ps) = Returns"
    "join (target (spec_thread ps)) = None"
  shows "terminate_pipeline_try name w =
    (None, emit (Join (spec_thread ps) None) (emit (Stop (spec_pipeline ps)) w))"
  using assms by (simp add: terminate_pipeline_try_def Let_def)

lemma try_stats_raises:
  assumes "map_of (pipeline_registry w) name = Some ps" "stop (spec_pipeline ps) = Returns"
    "join (target (spec_thread ps)) = Some Returns" "stats (spec_pipeline ps) = Raises"
  shows "terminate_pipeline_try name w =
    (Some (Inl CollaboratorError),
     emit (Stats (spec_pipeline ps) name) (logger INFO (stopped_msg name)
       (emit (Join (spec_thread ps) None) (emit (Stop (spec_pipeline ps)) w))))"
  using assms by (simp add: terminate_pipeline_try_def Let_def stopped_msg_def)

lemma try_succeeds:
  assumes "map_of (pipeline_registry w) name = Some ps" "stop (spec_pipeline ps) = Returns"
    "join (target (spec_thread ps)) = Some Returns" "stats (spec_pipeline ps) = Returns"
  shows "terminate_pipeline_try name w =
    (Some (Inr ()),
     (emit (Stats (spec_pipeline ps) name) (logger INFO (stopped_msg name)
       (emit (Join (spec_thread ps) None) (emit (Stop (spec_pipeline ps)) w))))
     \<lparr>pipeline_registry := AList.delete name (pipeline_registry w)\<rparr>)"
  using assms by (simp add: terminate_pipeline_try_def Let_def stopped_msg_def fields)


lemma terminate_succeeds:
  assumes "map_of (pipeline_registry w) name = Some ps" "terminates_cleanly ps"
  shows "fst (terminate_pipeline name w) = Some (Inr ())"
    and "pipeline_registry (snd (terminate_pipeline name w)) = AList.delete name (pipeline_registry w)"
    and "threads (snd (terminate_pipeline name w)) = threads w"
    and "calls (trace (snd (terminate_pipeline name w))) =
          calls (trace w) @ [Stop (spec_pipeline ps), Join (spec_thread ps) None,
                             Stats (spec_pipeline ps) name]"
proof -
  let ?w1 = "logger DEBUG (''Attempting to terminate pipeline with name '' @ name @ ''...'') w"
  have m: "map_of (pipeline_registry ?w1) name = Some ps"
    using assms(1) by (simp add: fields)
  have k: "name \<in> set (map fst (pipeline_registry ?w1))"
    using m by (rule key_present)
  have t: "terminate_pipeline name w = terminate_pipeline_try name ?w1"
    using k assms(2) try_succeeds [OF m]
    by (simp add: terminate_pipeline_def Let_def terminates_cleanly_def)
  show "fst (terminate_pipeline name w) = Some (Inr ())"
    using assms(2) try_succeeds [OF m] by (simp add: t terminates_cleanly_def)
  show "pipeline_registry (snd (terminate_pipeline name w)) = AList.delete name (pipeline_registry w)"
    using assms(2) try_succeeds [OF m] by (simp add: t terminates_cleanly_def fields)
  show "threads (snd (terminate_pipeline name w)) = threads w"
    using assms(2) try_succeeds [OF m] by (simp add: t terminates_cleanly_def fields)
  show "calls (trace (snd (terminate_pipeline name w))) =
          calls (trace w) @ [Stop (spec_pipeline ps), Join (spec_thread ps) None,
                             Stats (spec_pipeline ps) name]"
    using assms(2) try_succeeds [OF m] by (simp add: t terminates_cleanly_def fields)
qed

lemma terminate_fails:
  assumes "map_of (pipeline_registry w) name = Some ps"
    and "terminate_pipeline_try name
           (logger DEBUG (''Attempting to terminate pipeline with name '' @ name @ ''...'') w)
         = (Some (Inl e), w2)"
  shows "terminate_pipeline name w =
     (Some (Inl (TerminationFailed name)),
      logger_exc ERROR (''Caught exception while attempting to terminate pipeline with name ''
                        @ name @ '': '') 3 w2)"
proof -
  have "name \<in> set (map fst (pipeline_registry w))"
    using assms(1) by (rule key_present)
  then show ?thesis
    using assms(2) by (simp add: terminate_pipeline_def Let_def fields)
qed

text \<open>
  Claim C3. \<open>terminate_pipeline name\<close> raises the not-found exception when \<open>name\<close> is
  not a key of the registry, and the registry is then what it was (no collaborator is
  called either). When \<open>name\<close> is registered and every call returns, the calls are
  \<open>pipeline.stop()\<close>, then \<open>thread.join()\<close> with no timeout, then the statistics summary, in
  this order, and the record is gone from the registry afterwards. The join has no
  timeout: when it never returns, neither does \<open>terminate_pipeline\<close>, and the record stays.
\<close>

theorem terminate_pipeline_contract:
  "(name \<notin> set (map fst (pipeline_registry w)) \<longrightarrow>
      fst (terminate_pipeline name w) = Some (Inl (NotFound name)) \<and>
      pipeline_registry (snd (terminate_pipeline name w)) = pipeline_registry w \<and>
      calls (trace (snd (terminate_pipeline name w))) = calls (trace w)) \<and>
   (map_of (pipeline_registry w) name = Some ps \<and> stop (spec_pipeline ps) = Returns \<and>
    join (target (spec_thread ps)) = Some Returns \<and> stats (spec_pipeline ps) = Returns \<longrightarrow>
      fst (terminate_pipeline name w) = Some (Inr ()) \<and>
      calls (trace (snd (terminate_pipeline name w))) =
        calls (trace w) @ [Stop (spec_pipeline ps), Join (spec_thread ps) None,
                           Stats (spec_pipeline ps) name] \<and>
      pipeline_registry (snd (terminate_pipeline name w)) =
        AList.delete name (pipeline_registry w) \<and>
      name \<notin> set (map fst (pipeline_registry (snd (terminate_pipeline name w))))) \<and>
   (map_of (pipeline_registry w) name = Some ps \<and> stop (spec_pipeline ps) = Returns \<and>
    join (target (spec_thread ps)) = None \<longrightarrow>
      fst (terminate_pipeline name w) = None \<and>
      pipeline_registry (snd (terminate_pipeline name w)) = pipeline_registry w)"
proof (intro conjI impI)
  assume a: "name \<notin> set (map fst (pipeline_registry w))"
  show "fst (terminate_pipeline name w) = Some (Inl (NotFound name))"
    by (simp add: terminate_absent [OF a])
  show "pipeline_registry (snd (terminate_pipeline name w)) = pipeline_registry w"
    by (simp add: terminate_absent [OF a] fields)
  show "calls (trace (snd (terminate_pipeline name w))) = calls (trace w)"
    by (simp add: terminate_absent [OF a] fields)
next
  assume a: "map_of (pipeline_registry w) name = Some ps \<and> stop (spec_pipeline ps) = Returns \<and>
    join (target (spec_thread ps)) = Some Returns \<and> stats (spec_pipeline ps) = Returns"
  then have m: "map_of (pipeline_registry w) name = Some ps" and c: "terminates_cleanly ps"
    by (simp_all add: terminates_cleanly_def)
  show "fst (terminate_pipeline name w) = Some (Inr ())"
    by (rule terminate_succeeds(1) [OF m c])
  show "calls (trace (snd (terminate_pipeline name w))) =
        calls (trace w) @ [Stop (spec_pipeline ps), Join (spec_thread ps) None,
                           Stats (spec_pipeline ps) name]"
    by (rule terminate_succeeds(4) [OF m c])
  show d: "pipeline_registry (snd (terminate_pipeline name w)) =
        AList.delete name (pipeline_registry w)"
    by (rule terminate_succeeds(2) [OF m c])
  show "name \<notin> set (map fst (pipeline_registry (snd (terminate_pipeline name w))))"
    by (simp add: d AList.delete_keys)
next
  assume a: "map_of (pipeline_registry w) name = Some ps \<and> stop (spec_pipeline ps) = Returns \<and>
    join (target (spec_thread ps)) = None"
  let ?w1 = "logger DEBUG (''Attempting to terminate pipeline with name '' @ name @ ''...'') w"
  have m: "map_of (pipeline_registry ?w1) name = Some ps"
    using a by (simp add: fields)
  have k: "name \<in> set (map fst (pipeline_registry ?w1))"
    using m by (rule key_present)
  have t: "terminate_pipeline name w = terminate_pipeline_try name ?w1"
    using k a try_join_blocks [OF m]
    by (simp add: terminate_pipeline_def Let_def)
  show "fst (terminate_pipeline name w) = None"
    using a try_join_blocks [OF m] by (simp add: t)
  show "pipeline_registry (snd (terminate_pipeline name w)) = pipeline_registry w"
    using a try_join_blocks [OF m] by (simp add: t fields)
qed

theorem terminate_pipeline_contract_witness:
  "fst (terminate_pipeline ''missing'' (registered ''p'' (healthy 0 ''p''))) =
     Some (Inl (NotFound ''missing'')) \<and>
   pipeline_registry (snd (terminate_pipeline ''missing'' (registered ''p'' (healthy 0 ''p'')))) =
     pipeline_registry (registered ''p'' (healthy 0 ''p'')) \<and>
   fst (terminate_pipeline ''p'' (registered ''p'' (healthy 0 ''p''))) = Some (Inr ()) \<and>
   pipeline_registry (snd (terminate_pipeline ''p'' (registered ''p'' (healthy 0 ''p'')))) = [] \<and>
   fst (terminate_pipeline ''p'' (registered ''p'' ((healthy 0 ''p'')\<lparr>join := None\<rparr>))) = None"
  using
    terminate_pipeline_contract [of "''missing''" "registered ''p'' (healthy 0 ''p'')"]
    terminate_pipeline_contract [of "''p''" "registered ''p'' (healthy 0 ''p'')"
      "\<lparr>spec_name = ''p'', spec_pipeline = healthy 0 ''p'',
        spec_thread = \<lparr>tid = 0, target = healthy 0 ''p''\<rparr>\<rparr>"]
    terminate_pipeline_contract [of "''p''" "registered ''p'' ((healthy 0 ''p'')\<lparr>join := None\<rparr>)"
      "\<lparr>spec_name = ''p'', spec_pipeline = (healthy 0 ''p'')\<lparr>join := None\<rparr>,
        spec_thread = \<lparr>tid = 0, target = (healthy 0 ''p'')\<lparr>join := None\<rparr>\<rparr>\<rparr>"]
  by (simp add: registered_registry healthy_def)

lemma terminate_stop_raises:
  assumes "map_of (pipeline_registry w) name = Some ps" "stop (spec_pipeline ps) = Raises"
  shows "fst (terminate_pipeline name w) = Some (Inl (TerminationFailed name))"
    and "pipeline_registry (snd (terminate_pipeline name w)) = pipeline_registry w"
    and "calls (trace (snd (terminate_pipeline name w))) = calls (trace w) @ [Stop (spec_pipeline ps)]"
proof -
  let ?w1 = "logger DEBUG (''Attempting to terminate pipeline with name '' @ name @ ''...'') w"
  have m: "map_of (pipeline_registry ?w1) name = Some ps"
    using assms(1) by (simp add: fields)
  note t = terminate_fails [OF assms(1) try_stop_raises [OF m assms(2)]]
  show "fst (terminate_pipeline name w) = Some (Inl (TerminationFailed name))"
    by (simp add: t)
  show "pipeline_registry (snd (terminate_pipeline name w)) = pipeline_registry w"
    by (simp add: t fields)
  show "calls (trace (snd (terminate_pipeline name w))) = calls (trace w) @ [Stop (spec_pipeline ps)]"
    by (simp add: t fields)
qed

lemma terminate_join_raises:
  assumes "map_of (pipeline_registry w) name = Some ps" "stop (spec_pipeline ps) = Returns"
    "join (target (spec_thread ps)) = Some Raises"
  shows "fst (terminate_pipeline name w) = Some (Inl (TerminationFailed name))"
    and "pipeline_registry (snd (terminate_pipeline name w)) = pipeline_registry w"
    and "calls (trace (snd (terminate_pipeline name w))) =
           calls (trace w) @ [Stop (spec_pipeline ps), Join (spec_thread ps) None]"
proof -
  let ?w1 = "logger DEBUG (''Attempting to terminate pipeline with name '' @ name @ ''...'') w"
  have m: "map_of (pipeline_registry ?w1) name = Some ps"
    using assms(1) by (simp add: fields)
  note t = terminate_fails [OF assms(1) try_join_raises [OF m assms(2,3)]]
  show "fst (terminate_pipeline name w) = Some (Inl (TerminationFailed name))"
    by (simp add: t)
  show "pipeline_registry (snd (terminate_pipeline name w)) = pipeline_registry w"
    by (simp add: t fields)
  show "calls (trace (snd (terminate_pipeline name w))) =
           calls (trace w) @ [Stop (spec_pipeline ps), Join (spec_thread ps) None]"
    by (simp add: t fields)
qed

lemma terminate_stats_raises:
  assumes "map_of (pipeline_registry w) name = Some ps" "stop (spec_pipeline ps) = Returns"
    "join (target (spec_thread ps)) = Some Returns" "stats (spec_pipeline ps) = Raises"
  shows "fst (terminate_pipeline name w) = Some (Inl (TerminationFailed name))"
    and "pipeline_registry (snd (terminate_pipeline name w)) = pipeline_registry w"
    and "calls (trace (snd (terminate_pipeline name w))) =
           calls (trace w) @ [Stop (spec_pipeline ps), Join (spec_thread ps) None,
                              Stats (spec_pipeline ps) name]"
    and "last (trace (snd (terminate_pipeline name w))) = Log ERROR (handler_msg name) (Some 3)"
proof -
  let ?w1 = "logger DEBUG (''Attempting to terminate pipeline with name '' @ name @ ''...'') w"
  have m: "map_of (pipeline_registry ?w1) name = Some ps"
    using assms(1) by (simp add: fields)
  note t = terminate_fails [OF assms(1) try_stats_raises [OF m assms(2,3,4)]]
  show "fst (terminate_pipeline name w) = Some (Inl (TerminationFailed name))"
    by (simp add: t)
  show "pipeline_registry (snd (terminate_pipeline name w)) = pipeline_registry w"
    by (simp add: t fields)
  show "calls (trace (snd (terminate_pipeline name w))) =
           calls (trace w) @ [Stop (spec_pipeline ps), Join (spec_thread ps) None,
                              Stats (spec_pipeline ps) name]"
    by (simp add: t fields)
  show "last (trace (snd (terminate_pipeline name w))) = Log ERROR (handler_msg name) (Some 3)"
    by (simp add: t fields handler_msg_def)
qed

text \<open>
  Claim C4. When \<open>name\<close> is registered and \<open>pipeline.stop()\<close> raises, or \<open>stop()\<close> returns
  and the join of the worker raises, \<open>terminate_pipeline name\<close> raises the manager's
  termination-failure exception, and the registry is unchanged: the record of \<open>name\<close>
  is still there.
\<close>

theorem terminate_failure_keeps_record:
  assumes "map_of (pipeline_registry w) name = Some ps"
    and "stop (spec_pipeline ps) = Raises \<or>
         (stop (spec_pipeline ps) = Returns \<and> join (target (spec_thread ps)) = Some Raises)"
  shows "fst (terminate_pipeline name w) = Some (Inl (TerminationFailed name)) \<and>
         pipeline_registry (snd (terminate_pipeline name w)) = pipeline_registry w \<and>
         map_of (pipeline_registry (snd (terminate_pipeline name w))) name = Some ps"
  using assms terminate_stop_raises(1,2) [of w name ps] terminate_join_raises(1,2) [of w name ps]
  by auto

theorem terminate_failure_keeps_record_witness:
  "fst (terminate_pipeline ''p'' (registered ''p'' ((healthy 0 ''p'')\<lparr>stop := Raises\<rparr>))) =
     Some (Inl (TerminationFailed ''p'')) \<and>
   map fst (pipeline_registry
      (snd (terminate_pipeline ''p'' (registered ''p'' ((healthy 0 ''p'')\<lparr>stop := Raises\<rparr>))))) = [''p''] \<and>
   fst (terminate_pipeline ''p'' (registered ''p'' ((healthy 0 ''p'')\<lparr>join := Some Raises\<rparr>))) =
     Some (Inl (TerminationFailed ''p'')) \<and>
   map fst (pipeline_registry
      (snd (terminate_pipeline ''p'' (registered ''p'' ((healthy 0 ''p'')\<lparr>join := Some Raises\<rparr>))))) = [''p'']"
  using
    terminate_failure_keeps_record [of "registered ''p'' ((healthy 0 ''p'')\<lparr>stop := Raises\<rparr>)" "''p''"
      "\<lparr>spec_name = ''p'', spec_pipeline = (healthy 0 ''p'')\<lparr>stop := Raises\<rparr>,
        spec_thread = \<lparr>tid = 0, target = (healthy 0 ''p'')\<lparr>stop := Raises\<rparr>\<rparr>\<rparr>"]
    terminate_failure_keeps_record [of "registered ''p'' ((healthy 0 ''p'')\<lparr>join := Some Raises\<rparr>)" "''p''"
      "\<lparr>spec_name = ''p'', spec_pipeline = (healthy 0 ''p'')\<lparr>join := Some Raises\<rparr>,
        spec_thread = \<lparr>tid = 0, target = (healthy 0 ''p'')\<lparr>join := Some Raises\<rparr>\<rparr>\<rparr>"]
  by (simp add: registered_registry healthy_def)

text \<open>
  Claim C10. When \<open>name\<close> is registered, \<open>stop()\<close> and the join return and the statistics
  summary raises, the same handler runs: \<open>terminate_pipeline name\<close> logs the handler's
  error line and raises the same termination-failure exception, after the three calls,
  and the record of \<open>name\<close> is still in the unchanged registry.
\<close>

theorem terminate_stats_failure_keeps_record:
  assumes "map_of (pipeline_registry w) name = Some ps"
    and "stop (spec_pipeline ps) = Returns" and "join (target (spec_thread ps)) = Some Returns"
    and "stats (spec_pipeline ps) = Raises"
  shows "fst (terminate_pipeline name w) = Some (Inl (TerminationFailed name)) \<and>
         pipeline_registry (snd (terminate_pipeline name w)) = pipeline_registry w \<and>
         map_of (pipeline_registry (snd (terminate_pipeline name w))) name = Some ps \<and>
         calls (trace (snd (terminate_pipeline name w))) =
           calls (trace w) @ [Stop (spec_pipeline ps), Join (spec_thread ps) None,
                              Stats (spec_pipeline ps) name] \<and>
         last (trace (snd (terminate_pipeline name w))) = Log ERROR (handler_msg name) (Some 3)"
  using assms terminate_stats_raises [of w name ps] by simp

theorem terminate_stats_failure_keeps_record_witness:
  "fst (terminate_pipeline ''p'' (registered ''p'' ((healthy 0 ''p'')\<lparr>stats := Raises\<rparr>))) =
     Some (Inl (TerminationFailed ''p'')) \<and>
   map fst (pipeline_registry
      (snd (terminate_pipeline ''p'' (registered ''p'' ((healthy 0 ''p'')\<lparr>stats := Raises\<rparr>))))) = [''p'']"
  using
    terminate_stats_failure_keeps_record [of "registered ''p'' ((healthy 0 ''p'')\<lparr>stats := Raises\<rparr>)" "''p''"
      "\<lparr>spec_name = ''p'', spec_pipeline = (healthy 0 ''p'')\<lparr>stats := Raises\<rparr>,
        spec_thread = \<lparr>tid = 0, target = (healthy 0 ''p'')\<lparr>stats := Raises\<rparr>\<rparr>\<rparr>"]
  by (simp add: registered_registry healthy_def)

subsection \<open>Starting a pipeline\<close>

lemma start_present:
  assumes "name \<in> set (map fst (pipeline_registry w))"
  shows "start_pipeline name pipeline w =
     (Inl (AlreadyRunning name),
      logger DEBUG (''Attempting to start pipeline with name '' @ name @ ''...'') w)"
  using assms by (simp add: start_pipeline_def Let_def fields)

lemma start_absent:
  assumes "name \<notin> set (map fst (pipeline_registry w))"
  shows "fst (start_pipeline name pipeline w) = Inr ()"
    and "threads (snd (start_pipeline name pipeline w)) = threads w @ [new_thread pipeline w]"
    and "pipeline_registry (snd (start_pipeline name pipeline w)) =
           AList.update (pipeline_name pipeline)
             \<lparr>spec_name = name, spec_pipeline = pipeline, spec_thread = new_thread pipeline w\<rparr>
             (pipeline_registry w)"
    and "calls (trace (snd (start_pipeline name pipeline w))) = calls (trace w)"
  using assms by (simp_all add: start_pipeline_def Let_def fields new_thread_def)

lemma run_pipeline_first_call:
  "\<exists>rest. trace (snd (run_pipeline pipeline v)) = trace v @ Run pipeline # rest"
  by (simp add: run_pipeline_def Let_def fields split: option.split outcome.split)

text \<open>
  Claim C2. \<open>start_pipeline name pipeline\<close> raises the already-running exception when
  \<open>name\<close> is a key of the registry, and then starts no thread and changes no record.
  Otherwise it returns, whatever \<open>pipeline.run()\<close> and the join of the worker would do:
  exactly one new thread is started, whose body is \<open>run_pipeline pipeline\<close> and so
  begins by calling \<open>pipeline.run()\<close>; the record of the caller's name, the pipeline and
  that thread is stored under the key \<open>pipeline.name\<close>, so that when \<open>pipeline.name\<close>
  differs from \<open>name\<close>, \<open>name\<close> is still not a key; and the manager itself makes no
  collaborator call (no \<open>run()\<close>, no join) before it returns.
\<close>

theorem start_pipeline_contract:
  "(name \<in> set (map fst (pipeline_registry w)) \<longrightarrow>
      fst (start_pipeline name pipeline w) = Inl (AlreadyRunning name) \<and>
      pipeline_registry (snd (start_pipeline name pipeline w)) = pipeline_registry w \<and>
      threads (snd (start_pipeline name pipeline w)) = threads w) \<and>
   (name \<notin> set (map fst (pipeline_registry w)) \<longrightarrow>
      fst (start_pipeline name pipeline w) = Inr () \<and>
      threads (snd (start_pipeline name pipeline w)) = threads w @ [new_thread pipeline w] \<and>
      thread_body (new_thread pipeline w) = run_pipeline pipeline \<and>
      (\<forall>v. \<exists>rest. trace (snd (thread_body (new_thread pipeline w) v)) =
                    trace v @ Run pipeline # rest) \<and>
      pipeline_registry (snd (start_pipeline name pipeline w)) =
        AList.update (pipeline_name pipeline)
          \<lparr>spec_name = name, spec_pipeline = pipeline, spec_thread = new_thread pipeline w\<rparr>
          (pipeline_registry w) \<and>
      map_of (pipeline_registry (snd (start_pipeline name pipeline w))) (pipeline_name pipeline) =
        Some \<lparr>spec_name = name, spec_pipeline = pipeline, spec_thread = new_thread pipeline w\<rparr> \<and>
      (name \<noteq> pipeline_name pipeline \<longrightarrow>
         name \<notin> set (map fst (pipeline_registry (snd (start_pipeline name pipeline w))))) \<and>
      calls (trace (snd (start_pipeline name pipeline w))) = calls (trace w))"
proof (intro conjI impI allI)
  assume a: "name \<in> set (map fst (pipeline_registry w))"
  show "fst (start_pipeline name pipeline w) = Inl (AlreadyRunning name)"
    by (simp add: start_present [OF a])
  show "pipeline_registry (snd (start_pipeline name pipeline w)) = pipeline_registry w"
    by (simp add: start_present [OF a] fields)
  show "threads (snd (start_pipeline name pipeline w)) = threads w"
    by (simp add: start_present [OF a] fields)
next
  assume a: "name \<notin> set (map fst (pipeline_registry w))"
  show "fst (start_pipeline name pipeline w) = Inr ()"
    by (rule start_absent(1) [OF a])
  show "threads (snd (start_pipeline name pipeline w)) = threads w @ [new_thread pipeline w]"
    by (rule start_absent(2) [OF a])
  show b: "thread_body (new_thread pipeline w) = run_pipeline pipeline"
    by (rule ext) (simp add: thread_body_def new_thread_def)
  show "\<exists>rest. trace (snd (thread_body (new_thread pipeline w) v)) =
                    trace v @ Run pipeline # rest" for v
    by (simp only: b run_pipeline_first_call)
  show r: "pipeline_registry (snd (start_pipeline name pipeline w)) =
        AList.update (pipeline_name pipeline)
          \<lparr>spec_name = name, spec_pipeline = pipeline, spec_thread = new_thread pipeline w\<rparr>
          (pipeline_registry w)"
    by (rule start_absent(3) [OF a])
  show "map_of (pipeline_registry (snd (start_pipeline name pipeline w))) (pipeline_name pipeline) =
        Some \<lparr>spec_name = name, spec_pipeline = pipeline, spec_thread = new_thread pipeline w\<rparr>"
    by (simp add: r AList.update_conv')
  show "calls (trace (snd (start_pipeline name pipeline w))) = calls (trace w)"
    by (rule start_absent(4) [OF a])
  assume "name \<noteq> pipeline_name pipeline"
  then show "name \<notin> set (map fst (pipeline_registry (snd (start_pipeline name pipeline w))))"
    using a by (simp add: r AList.dom_update)
qed

theorem start_pipeline_contract_witness:
  "fst (start_pipeline ''p'' ((healthy 1 ''q'')\<lparr>run := None, join := None\<rparr>) initial) = Inr () \<and>
   map fst (pipeline_registry
     (snd (start_pipeline ''p'' ((healthy 1 ''q'')\<lparr>run := None, join := None\<rparr>) initial))) = [''q''] \<and>
   length (threads (snd (start_pipeline ''p'' ((healthy 1 ''q'')\<lparr>run := None, join := None\<rparr>) initial))) = 1 \<and>
   fst (start_pipeline ''p'' (healthy 1 ''q'') (registered ''p'' (healthy 0 ''p''))) =
     Inl (AlreadyRunning ''p'') \<and>
   threads (snd (start_pipeline ''p'' (healthy 1 ''q'') (registered ''p'' (healthy 0 ''p'')))) =
     threads (registered ''p'' (healthy 0 ''p''))"
  using
    start_pipeline_contract [of "''p''" initial "(healthy 1 ''q'')\<lparr>run := None, join := None\<rparr>"]
    start_pipeline_contract [of "''p''" "registered ''p'' (healthy 0 ''p'')" "healthy 1 ''q''"]
  by (simp add: registered_registry healthy_def initial_def)

subsection \<open>The worker body\<close>

text \<open>
  Claim C6. When \<open>pipeline.run()\<close> raises in \<open>run_pipeline\<close>, the worker logs one error
  line whose traceback is limited to three frames, then calls \<open>pipeline.stop()\<close>, and
  then ends: it returns when \<open>stop()\<close> returns, and the exception of \<open>stop()\<close> leaves it
  otherwise. It makes no other call. The registry and the list of threads are what
  they were, so a record registered before is still registered, and a later
  \<open>start_pipeline\<close> under a registered name still raises the already-running exception.
\<close>

theorem run_pipeline_crash:
  assumes "run pipeline = Some Raises"
  shows "fst (run_pipeline pipeline w) =
           (case stop pipeline of Returns \<Rightarrow> Some (Inr ())
                                | Raises \<Rightarrow> Some (Inl CollaboratorError)) \<and>
         (\<exists>rest. trace (snd (run_pipeline pipeline w)) =
             trace w @ [Run pipeline, Log ERROR (crash_msg pipeline) (Some 3), Stop pipeline] @ rest
             \<and> calls rest = []) \<and>
         pipeline_registry (snd (run_pipeline pipeline w)) = pipeline_registry w \<and>
         threads (snd (run_pipeline pipeline w)) = threads w \<and>
         (\<forall>name other. name \<in> set (map fst (pipeline_registry w)) \<longrightarrow>
            fst (start_pipeline name other (snd (run_pipeline pipeline w))) =
              Inl (AlreadyRunning name))"
proof (intro conjI allI impI)
  show "fst (run_pipeline pipeline w) =
           (case stop pipeline of Returns \<Rightarrow> Some (Inr ())
                                | Raises \<Rightarrow> Some (Inl CollaboratorError))"
    using assms by (simp add: run_pipeline_def Let_def split: outcome.split)
  show "\<exists>rest. trace (snd (run_pipeline pipeline w)) =
             trace w @ [Run pipeline, Log ERROR (crash_msg pipeline) (Some 3), Stop pipeline] @ rest
             \<and> calls rest = []"
    using assms by (cases "stop pipeline") (simp_all add: run_pipeline_def Let_def fields crash_msg_def)
  show r: "pipeline_registry (snd (run_pipeline pipeline w)) = pipeline_registry w"
    using assms by (cases "stop pipeline") (simp_all add: run_pipeline_def Let_def fields)
  show "threads (snd (run_pipeline pipeline w)) = threads w"
    using assms by (cases "stop pipeline") (simp_all add: run_pipeline_def Let_def fields)
  fix name other
  assume "name \<in> set (map fst (pipeline_registry w))"
  then have "name \<in> set (map fst (pipeline_registry (snd (run_pipeline pipeline w))))"
    by (simp only: r)
  then show "fst (start_pipeline name other (snd (run_pipeline pipeline w))) =
              Inl (AlreadyRunning name)"
    by (simp add: start_present)
qed

theorem run_pipeline_crash_witness:
  "fst (run_pipeline ((healthy 0 ''x'')\<lparr>run := Some Raises\<rparr>)
         (registered ''x'' ((healthy 0 ''x'')\<lparr>run := Some Raises\<rparr>))) = Some (Inr ()) \<and>
   map fst (pipeline_registry (snd (run_pipeline ((healthy 0 ''x'')\<lparr>run := Some Raises\<rparr>)
         (registered ''x'' ((healthy 0 ''x'')\<lparr>run := Some Raises\<rparr>))))) = [''x''] \<and>
   fst (start_pipeline ''x'' (healthy 1 ''x'')
         (snd (run_pipeline ((healthy 0 ''x'')\<lparr>run := Some Raises\<rparr>)
            (registered ''x'' ((healthy 0 ''x'')\<lparr>run := Some Raises\<rparr>))))) =
     Inl (AlreadyRunning ''x'')"
  using run_pipeline_crash [of "(healthy 0 ''x'')\<lparr>run := Some Raises\<rparr>"
          "registered ''x'' ((healthy 0 ''x'')\<lparr>run := Some Raises\<rparr>)"]
  by (simp add: registered_registry healthy_def)

subsection \<open>Terminating every pipeline\<close>

lemma terminate_join_blocks:
  assumes "map_of (pipeline_registry w) name = Some ps" "stop (spec_pipeline ps) = Returns"
    "join (target (spec_thread ps)) = None"
  shows "fst (terminate_pipeline name w) = None"
    and "pipeline_registry (snd (terminate_pipeline name w)) = pipeline_registry w"
    and "calls (trace (snd (terminate_pipeline name w))) =
           calls (trace w) @ [Stop (spec_pipeline ps), Join (spec_thread ps) None]"
proof -
  let ?w1 = "logger DEBUG (''Attempting to terminate pipeline with name '' @ name @ ''...'') w"
  have m: "map_of (pipeline_registry ?w1) name = Some ps"
    using assms(1) by (simp add: fields)
  have "name \<in> set (map fst (pipeline_registry ?w1))"
    using m by (rule key_present)
  then have t: "terminate_pipeline name w = terminate_pipeline_try name ?w1"
    using try_join_blocks [OF m assms(2,3)] by (simp add: terminate_pipeline_def Let_def)
  show "fst (terminate_pipeline name w) = None"
    using try_join_blocks [OF m assms(2,3)] by (simp add: t)
  show "pipeline_registry (snd (terminate_pipeline name w)) = pipeline_registry w"
    using try_join_blocks [OF m assms(2,3)] by (simp add: t fields)
  show "calls (trace (snd (terminate_pipeline name w))) =
           calls (trace w) @ [Stop (spec_pipeline ps), Join (spec_thread ps) None]"
    using try_join_blocks [OF m assms(2,3)] by (simp add: t fields)
qed

lemma terminate_unclean:
  assumes m: "map_of (pipeline_registry w) name = Some ps" and u: "\<not> terminates_cleanly ps"
  shows "fst (terminate_pipeline name w) = failure name ps"
    and "pipeline_registry (snd (terminate_pipeline name w)) = pipeline_registry w"
    and "calls (trace (snd (terminate_pipeline name w))) = calls (trace w) @ failed_calls name ps"
proof -
  consider
      (stop) "stop (spec_pipeline ps) = Raises"
    | (blocks) "stop (spec_pipeline ps) = Returns" "join (target (spec_thread ps)) = None"
    | (join) "stop (spec_pipeline ps) = Returns" "join (target (spec_thread ps)) = Some Raises"
    | (stats) "stop (spec_pipeline ps) = Returns" "join (target (spec_thread ps)) = Some Returns"
        "stats (spec_pipeline ps) = Raises"
    using u unfolding terminates_cleanly_def
    by (metis outcome.exhaust option.exhaust)
  then have "fst (terminate_pipeline name w) = failure name ps \<and>
    pipeline_registry (snd (terminate_pipeline name w)) = pipeline_registry w \<and>
    calls (trace (snd (terminate_pipeline name w))) = calls (trace w) @ failed_calls name ps"
  proof cases
    case stop
    then show ?thesis
      using terminate_stop_raises [OF m stop]
      by (simp add: failure_def failed_calls_def)
  next
    case blocks
    then show ?thesis
      using terminate_join_blocks [OF m blocks]
      by (simp add: failure_def failed_calls_def)
  next
    case join
    then show ?thesis
      using terminate_join_raises [OF m join]
      by (simp add: failure_def failed_calls_def)
  next
    case stats
    then show ?thesis
      using terminate_stats_raises(1,2,3) [OF m stats]
      by (simp add: failure_def failed_calls_def termination_calls_def)
  qed
  then show "fst (terminate_pipeline name w) = failure name ps"
    and "pipeline_registry (snd (terminate_pipeline name w)) = pipeline_registry w"
    and "calls (trace (snd (terminate_pipeline name w))) = calls (trace w) @ failed_calls name ps"
    by simp_all
qed

lemma failure_not_success: "failure name ps \<noteq> Some (Inr u)"
  by (simp add: failure_def)

lemma terminate_names_step:
  assumes "fst (terminate_pipeline name w) = Some (Inr ())"
  shows "terminate_names (name # names) w = terminate_names names (snd (terminate_pipeline name w))"
  using assms by (cases "terminate_pipeline name w") simp

lemma terminate_names_stop:
  assumes "fst (terminate_pipeline name w) = failure name ps"
  shows "terminate_names (name # names) w = terminate_pipeline name w"
  using assms failure_not_success [of name ps]
  by (cases "terminate_pipeline name w") (auto split: option.split sum.split)

lemma terminate_head:
  assumes r: "pipeline_registry w = (name, ps) # rest" and d: "distinct (map fst ((name, ps) # rest))"
    and c: "terminates_cleanly ps"
  shows "fst (terminate_pipeline name w) = Some (Inr ())"
    and "pipeline_registry (snd (terminate_pipeline name w)) = rest"
    and "calls (trace (snd (terminate_pipeline name w))) =
           calls (trace w) @ termination_calls (name, ps)"
proof -
  have m: "map_of (pipeline_registry w) name = Some ps"
    by (simp add: r)
  show "fst (terminate_pipeline name w) = Some (Inr ())"
    by (rule terminate_succeeds(1) [OF m c])
  have "name \<notin> fst ` set rest"
    using d by simp
  then show "pipeline_registry (snd (terminate_pipeline name w)) = rest"
    by (simp add: terminate_succeeds(2) [OF m c] r)
  show "calls (trace (snd (terminate_pipeline name w))) =
           calls (trace w) @ termination_calls (name, ps)"
    by (simp add: terminate_succeeds(4) [OF m c] termination_calls_def)
qed

lemma terminate_names_clean:
  assumes "pipeline_registry w = reg" "distinct (map fst reg)"
    "\<forall>entry \<in> set reg. terminates_cleanly (snd entry)"
  shows "fst (terminate_names (map fst reg) w) = Some (Inr ()) \<and>
         pipeline_registry (snd (terminate_names (map fst reg) w)) = [] \<and>
         calls (trace (snd (terminate_names (map fst reg) w))) =
           calls (trace w) @ concat (map termination_calls reg)"
  using assms
proof (induction reg arbitrary: w)
  case Nil
  then show ?case by simp
next
  case (Cons entry reg)
  obtain name ps where e: "entry = (name, ps)"
    by (cases entry)
  have r: "pipeline_registry w = (name, ps) # reg"
    using Cons.prems(1) e by simp
  have d: "distinct (map fst ((name, ps) # reg))"
    using Cons.prems(2) e by simp
  have c: "terminates_cleanly ps"
    using Cons.prems(3) e by simp
  note h = terminate_head [OF r d c]
  have ih: "fst (terminate_names (map fst reg) (snd (terminate_pipeline name w))) = Some (Inr ()) \<and>
         pipeline_registry (snd (terminate_names (map fst reg) (snd (terminate_pipeline name w)))) = [] \<and>
         calls (trace (snd (terminate_names (map fst reg) (snd (terminate_pipeline name w))))) =
           calls (trace (snd (terminate_pipeline name w))) @ concat (map termination_calls reg)"
    using Cons.prems(2,3) by (intro Cons.IH h(2)) simp_all
  have s: "terminate_names (map fst (entry # reg)) w =
           terminate_names (map fst reg) (snd (terminate_pipeline name w))"
    by (simp add: e terminate_names_step [OF h(1)] del: terminate_names.simps)
  show ?case
    using ih by (simp only: s) (simp add: e h(3))
qed

lemma terminate_names_abort:
  assumes "pipeline_registry w = pre @ (name, ps) # post"
    "distinct (map fst (pre @ (name, ps) # post))"
    "\<forall>entry \<in> set pre. terminates_cleanly (snd entry)"
    "\<not> terminates_cleanly ps"
  shows "fst (terminate_names (map fst (pre @ (name, ps) # post)) w) = failure name ps \<and>
         pipeline_registry (snd (terminate_names (map fst (pre @ (name, ps) # post)) w)) =
           (name, ps) # post \<and>
         calls (trace (snd (terminate_names (map fst (pre @ (name, ps) # post)) w))) =
           calls (trace w) @ concat (map termination_calls pre) @ failed_calls name ps"
  using assms
proof (induction pre arbitrary: w)
  case Nil
  have m: "map_of (pipeline_registry w) name = Some ps"
    using Nil.prems(1) by simp
  note u = terminate_unclean [OF m Nil.prems(4)]
  have s: "terminate_names (map fst ([] @ (name, ps) # post)) w = terminate_pipeline name w"
    by (simp add: terminate_names_stop [OF u(1)] del: terminate_names.simps)
  show ?case
    using u Nil.prems(1) by (simp only: s) simp
next
  case (Cons entry pre)
  obtain k q where e: "entry = (k, q)"
    by (cases entry)
  have r: "pipeline_registry w = (k, q) # (pre @ (name, ps) # post)"
    using Cons.prems(1) e by simp
  have d: "distinct (map fst ((k, q) # (pre @ (name, ps) # post)))"
    using Cons.prems(2) e by simp
  have c: "terminates_cleanly q"
    using Cons.prems(3) e by simp
  note h = terminate_head [OF r d c]
  have ih: "fst (terminate_names (map fst (pre @ (name, ps) # post)) (snd (terminate_pipeline k w)))
           = failure name ps \<and>
         pipeline_registry (snd (terminate_names (map fst (pre @ (name, ps) # post))
                                   (snd (terminate_pipeline k w)))) = (name, ps) # post \<and>
         calls (trace (snd (terminate_names (map fst (pre @ (name, ps) # post))
                              (snd (terminate_pipeline k w))))) =
           calls (trace (snd (terminate_pipeline k w))) @ concat (map termination_calls pre)
             @ failed_calls name ps"
    using Cons.prems(2,3,4) by (intro Cons.IH h(2)) simp_all
  have s: "terminate_names (map fst ((entry # pre) @ (name, ps) # post)) w =
           terminate_names (map fst (pre @ (name, ps) # post)) (snd (terminate_pipeline k w))"
    by (simp add: e terminate_names_step [OF h(1)] del: terminate_names.simps)
  show ?case
    using ih by (simp only: s) (simp add: e h(3))
qed

lemma terminate_all_clean:
  assumes "distinct (map fst (pipeline_registry w))"
    "\<forall>entry \<in> set (pipeline_registry w). terminates_cleanly (snd entry)"
  shows "fst (terminate_all w) = Some (Inr ())"
    and "pipeline_registry (snd (terminate_all w)) = []"
    and "calls (trace (snd (terminate_all w))) =
           calls (trace w) @ concat (map termination_calls (pipeline_registry w))"
proof -
  let ?w1 = "logger DEBUG ''Attempting to terminate all running pipelines...'' w"
  let ?r = "terminate_names (map fst (pipeline_registry w)) ?w1"
  have n: "fst ?r = Some (Inr ()) \<and> pipeline_registry (snd ?r) = [] \<and>
      calls (trace (snd ?r)) = calls (trace ?w1) @ concat (map termination_calls (pipeline_registry w))"
    using assms by (intro terminate_names_clean) (simp_all add: fields)
  have t: "terminate_all w =
      (Some (Inr ()), logger DEBUG ''Successfully terminated all running pipelines.'' (snd ?r))"
    using n by (cases ?r) (simp add: terminate_all_def Let_def fields)
  show "fst (terminate_all w) = Some (Inr ())"
    by (simp add: t)
  show "pipeline_registry (snd (terminate_all w)) = []"
    using n by (simp add: t fields)
  show "calls (trace (snd (terminate_all w))) =
           calls (trace w) @ concat (map termination_calls (pipeline_registry w))"
    using n by (simp add: t fields)
qed

lemma terminate_all_abort:
  assumes "pipeline_registry w = pre @ (name, ps) # post"
    "distinct (map fst (pipeline_registry w))"
    "\<forall>entry \<in> set pre. terminates_cleanly (snd entry)"
    "\<not> terminates_cleanly ps"
  shows "fst (terminate_all w) = failure name ps"
    and "pipeline_registry (snd (terminate_all w)) = (name, ps) # post"
    and "calls (trace (snd (terminate_all w))) =
           calls (trace w) @ concat (map termination_calls pre) @ failed_calls name ps"
proof -
  let ?w1 = "logger DEBUG ''Attempting to terminate all running pipelines...'' w"
  let ?r = "terminate_names (map fst (pre @ (name, ps) # post)) ?w1"
  have n: "fst ?r = failure name ps \<and> pipeline_registry (snd ?r) = (name, ps) # post \<and>
      calls (trace (snd ?r)) =
        calls (trace ?w1) @ concat (map termination_calls pre) @ failed_calls name ps"
    using assms by (intro terminate_names_abort) (simp_all add: fields)
  have "fst ?r \<noteq> Some (Inr ())"
    using n by (simp add: failure_not_success)
  then have t: "terminate_all w = ?r"
    by (cases ?r) (auto simp add: terminate_all_def Let_def fields assms(1)
          split: option.split sum.split)
  show "fst (terminate_all w) = failure name ps"
    using n by (simp add: t)
  show "pipeline_registry (snd (terminate_all w)) = (name, ps) # post"
    using n by (simp add: t)
  show "calls (trace (snd (terminate_all w))) =
           calls (trace w) @ concat (map termination_calls pre) @ failed_calls name ps"
    using n by (simp add: t fields)
qed

lemma count_stop_termination_calls:
  "count_list (concat (map termination_calls reg)) (Stop p) =
   count_list (map (spec_pipeline \<circ> snd) reg) p"
  by (induction reg) (simp_all add: termination_calls_def)

lemma count_list_distinct: "distinct xs \<Longrightarrow> x \<in> set xs \<Longrightarrow> count_list xs x = 1"
  by (induction xs) auto

text \<open>
  Claim C5. Let the keys of the registry be distinct, as those of a dict are.
  \<open>terminate_all\<close> terminates the names registered when it is entered, in the
  registry's order, one after the other. When every record terminates cleanly it
  returns, the registry is empty afterwards, and the calls made are the stop, join and
  statistics calls of each record in turn; so, the registered pipelines being distinct
  objects, \<open>stop()\<close> of each is called exactly once. When the records before \<open>name\<close>
  terminate cleanly and that of \<open>name\<close> does not, \<open>terminate_all\<close> ends as
  \<open>terminate_pipeline name\<close> does (the termination-failure exception, or no return when
  the join blocks); the record of \<open>name\<close> and all later records are still registered, and
  no call has been made for a later record.
\<close>

theorem terminate_all_contract:
  assumes "distinct (map fst (pipeline_registry w))"
  shows "((\<forall>entry \<in> set (pipeline_registry w). terminates_cleanly (snd entry)) \<longrightarrow>
            fst (terminate_all w) = Some (Inr ()) \<and>
            pipeline_registry (snd (terminate_all w)) = [] \<and>
            calls (trace (snd (terminate_all w))) =
              calls (trace w) @ concat (map termination_calls (pipeline_registry w)) \<and>
            (distinct (map (spec_pipeline \<circ> snd) (pipeline_registry w)) \<longrightarrow>
               (\<forall>entry \<in> set (pipeline_registry w).
                  count_list (calls (trace (snd (terminate_all w))))
                    (Stop (spec_pipeline (snd entry))) =
                  count_list (calls (trace w)) (Stop (spec_pipeline (snd entry))) + 1))) \<and>
         (pipeline_registry w = pre @ (name, ps) # post \<and>
          (\<forall>entry \<in> set pre. terminates_cleanly (snd entry)) \<and> \<not> terminates_cleanly ps \<longrightarrow>
            fst (terminate_all w) = failure name ps \<and>
            fst (terminate_all w) \<noteq> Some (Inr ()) \<and>
            pipeline_registry (snd (terminate_all w)) = (name, ps) # post \<and>
            calls (trace (snd (terminate_all w))) =
              calls (trace w) @ concat (map termination_calls pre) @ failed_calls name ps)"
proof (intro conjI impI ballI)
  assume c: "\<forall>entry \<in> set (pipeline_registry w). terminates_cleanly (snd entry)"
  show "fst (terminate_all w) = Some (Inr ())"
    by (rule terminate_all_clean(1) [OF assms c])
  show "pipeline_registry (snd (terminate_all w)) = []"
    by (rule terminate_all_clean(2) [OF assms c])
  show t: "calls (trace (snd (terminate_all w))) =
              calls (trace w) @ concat (map termination_calls (pipeline_registry w))"
    by (rule terminate_all_clean(3) [OF assms c])
  fix entry
  assume d: "distinct (map (spec_pipeline \<circ> snd) (pipeline_registry w))"
    and e: "entry \<in> set (pipeline_registry w)"
  have "spec_pipeline (snd entry) \<in> set (map (spec_pipeline \<circ> snd) (pipeline_registry w))"
    using e by force
  then have "count_list (map (spec_pipeline \<circ> snd) (pipeline_registry w))
               (spec_pipeline (snd entry)) = 1"
    by (rule count_list_distinct [OF d])
  then show "count_list (calls (trace (snd (terminate_all w))))
                    (Stop (spec_pipeline (snd entry))) =
                  count_list (calls (trace w)) (Stop (spec_pipeline (snd entry))) + 1"
    by (simp add: t count_stop_termination_calls)
next
  assume a: "pipeline_registry w = pre @ (name, ps) # post \<and>
          (\<forall>entry \<in> set pre. terminates_cleanly (snd entry)) \<and> \<not> terminates_cleanly ps"
  then have r: "pipeline_registry w = pre @ (name, ps) # post"
    and c: "\<forall>entry \<in> set pre. terminates_cleanly (snd entry)"
    and u: "\<not> terminates_cleanly ps"
    by simp_all
  show f: "fst (terminate_all w) = failure name ps"
    by (rule terminate_all_abort(1) [OF r assms c u])
  show "fst (terminate_all w) \<noteq> Some (Inr ())"
    by (simp add: f failure_not_success)
  show "pipeline_registry (snd (terminate_all w)) = (name, ps) # post"
    by (rule terminate_all_abort(2) [OF r assms c u])
  show "calls (trace (snd (terminate_all w))) =
              calls (trace w) @ concat (map termination_calls pre) @ failed_calls name ps"
    by (rule terminate_all_abort(3) [OF r assms c u])
qed

lemma started_abc_registry:
  assumes "pipeline_name b = ''b''"
  shows "pipeline_registry (started_abc b) =
     [(''a'', \<lparr>spec_name = ''a'', spec_pipeline = healthy 0 ''a'',
              spec_thread = \<lparr>tid = 0, target = healthy 0 ''a''\<rparr>\<rparr>),
      (''b'', \<lparr>spec_name = ''b'', spec_pipeline = b, spec_thread = \<lparr>tid = 1, target = b\<rparr>\<rparr>),
      (''c'', \<lparr>spec_name = ''c'', spec_pipeline = healthy 2 ''c'',
              spec_thread = \<lparr>tid = 2, target = healthy 2 ''c''\<rparr>\<rparr>)]"
    and "calls (trace (started_abc b)) = []"
  using assms
  by (simp_all add: started_abc_def registered_def start_pipeline_def initial_def Let_def fields
        healthy_def)

theorem terminate_all_contract_witness:
  "fst (terminate_all (started_abc (healthy 1 ''b''))) = Some (Inr ()) \<and>
   pipeline_registry (snd (terminate_all (started_abc (healthy 1 ''b'')))) = [] \<and>
   count_list (calls (trace (snd (terminate_all (started_abc (healthy 1 ''b''))))))
     (Stop (healthy 0 ''a'')) = 1 \<and>
   count_list (calls (trace (snd (terminate_all (started_abc (healthy 1 ''b''))))))
     (Stop (healthy 1 ''b'')) = 1 \<and>
   count_list (calls (trace (snd (terminate_all (started_abc (healthy 1 ''b''))))))
     (Stop (healthy 2 ''c'')) = 1 \<and>
   fst (terminate_all (started_abc ((healthy 1 ''b'')\<lparr>stop := Raises\<rparr>))) =
     Some (Inl (TerminationFailed ''b'')) \<and>
   map fst (pipeline_registry (snd (terminate_all (started_abc ((healthy 1 ''b'')\<lparr>stop := Raises\<rparr>)))))
     = [''b'', ''c'']"
proof -
  have d1: "distinct (map fst (pipeline_registry (started_abc (healthy 1 ''b''))))"
    by (simp add: started_abc_registry healthy_def)
  have d2: "distinct (map fst (pipeline_registry (started_abc ((healthy 1 ''b'')\<lparr>stop := Raises\<rparr>))))"
    by (simp add: started_abc_registry healthy_def)
  show ?thesis
    using terminate_all_contract [OF d1, THEN conjunct1]
      terminate_all_contract [OF d2, THEN conjunct2,
        of "[(''a'', \<lparr>spec_name = ''a'', spec_pipeline = healthy 0 ''a'',
                      spec_thread = \<lparr>tid = 0, target = healthy 0 ''a''\<rparr>\<rparr>)]"
           "''b''"
           "\<lparr>spec_name = ''b'', spec_pipeline = (healthy 1 ''b'')\<lparr>stop := Raises\<rparr>,
             spec_thread = \<lparr>tid = 1, target = (healthy 1 ''b'')\<lparr>stop := Raises\<rparr>\<rparr>\<rparr>"
           "[(''c'', \<lparr>spec_name = ''c'', spec_pipeline = healthy 2 ''c'',
                      spec_thread = \<lparr>tid = 2, target = healthy 2 ''c''\<rparr>\<rparr>)]"]
    by (simp add: started_abc_registry terminates_cleanly_def failure_def healthy_def
          termination_calls_def)
qed

subsection \<open>Starting twice under one name\<close>

lemma update_keeps_keys:
  "k \<in> set (map fst (AList.update k v al))"
  by (simp add: AList.dom_update)

text \<open>
  When the caller's name is the pipeline's own name, a second \<open>start_pipeline\<close> under
  that name raises the already-running exception, whatever pipeline it is given, and
  the only thread started by the two calls is the worker of the first.
\<close>

theorem start_twice_same_name:
  assumes "name \<notin> set (map fst (pipeline_registry w))" and "pipeline_name pipeline = name"
  shows "fst (start_pipeline name pipeline w) = Inr () \<and>
         fst (start_pipeline name other (snd (start_pipeline name pipeline w))) =
           Inl (AlreadyRunning name) \<and>
         threads (snd (start_pipeline name other (snd (start_pipeline name pipeline w)))) =
           threads w @ [new_thread pipeline w] \<and>
         map_of (pipeline_registry
                  (snd (start_pipeline name other (snd (start_pipeline name pipeline w))))) name =
           Some \<lparr>spec_name = name, spec_pipeline = pipeline, spec_thread = new_thread pipeline w\<rparr>"
proof -
  let ?w1 = "snd (start_pipeline name pipeline w)"
  have r: "pipeline_registry ?w1 =
      AList.update name
        \<lparr>spec_name = name, spec_pipeline = pipeline, spec_thread = new_thread pipeline w\<rparr>
        (pipeline_registry w)"
    using start_absent(3) [OF assms(1), of pipeline] assms(2) by simp
  have k: "name \<in> set (map fst (pipeline_registry ?w1))"
    by (simp only: r update_keeps_keys)
  show ?thesis
    using start_absent(1,2) [OF assms(1), of pipeline]
    by (simp add: start_present [OF k] fields r AList.update_conv')
qed

theorem start_twice_same_name_witness:
  "fst (start_pipeline ''p'' (healthy 7 ''other'')
          (snd (start_pipeline ''p'' (healthy 0 ''p'') initial))) = Inl (AlreadyRunning ''p'') \<and>
   length (threads (snd (start_pipeline ''p'' (healthy 7 ''other'')
          (snd (start_pipeline ''p'' (healthy 0 ''p'') initial))))) = 1"
  using start_twice_same_name [of "''p''" initial "healthy 0 ''p''" "healthy 7 ''other''"]
  by (simp add: initial_def healthy_def)

text \<open>
  Claim C1, on an input where the caller's name and \<open>pipeline.name\<close> differ: the
  pipeline named \<open>q\<close> is started as \<open>p\<close> twice on the empty registry. The record is
  stored under \<open>q\<close>, so the second call finds no key \<open>p\<close>: it returns instead of
  raising, a second thread runs the same pipeline, and the registry's only record now
  holds the second thread, the first being referenced by no record.
\<close>

theorem start_twice_divergent_name:
  "fst (start_pipeline ''p'' (healthy 0 ''q'') initial) = Inr () \<and>
   fst (start_pipeline ''p'' (healthy 0 ''q'')
          (snd (start_pipeline ''p'' (healthy 0 ''q'') initial))) = Inr () \<and>
   threads (snd (start_pipeline ''p'' (healthy 0 ''q'')
          (snd (start_pipeline ''p'' (healthy 0 ''q'') initial)))) =
     [\<lparr>tid = 0, target = healthy 0 ''q''\<rparr>, \<lparr>tid = 1, target = healthy 0 ''q''\<rparr>] \<and>
   pipeline_registry (snd (start_pipeline ''p'' (healthy 0 ''q'')
          (snd (start_pipeline ''p'' (healthy 0 ''q'') initial)))) =
     [(''q'', \<lparr>spec_name = ''p'', spec_pipeline = healthy 0 ''q'',
              spec_thread = \<lparr>tid = 1, target = healthy 0 ''q''\<rparr>\<rparr>)]"
  by (simp add: start_pipeline_def initial_def Let_def fields healthy_def)

subsection \<open>The registry stays a dict\<close>

text \<open>
  The keys of the registry are distinct in the empty registry, and every operation of
  the manager keeps them distinct, however it ends.
\<close>

lemma initial_distinct: "distinct (map fst (pipeline_registry initial))"
  by (simp add: initial_def)

lemma start_keeps_distinct:
  assumes "distinct (map fst (pipeline_registry w))"
  shows "distinct (map fst (pipeline_registry (snd (start_pipeline name pipeline w))))"
proof (cases "name \<in> set (map fst (pipeline_registry w))")
  case True
  then show ?thesis
    using assms by (simp add: start_present fields)
next
  case False
  then show ?thesis
    using assms by (simp add: start_absent(3) AList.distinct_update)
qed

lemma terminate_registry_cases:
  "pipeline_registry (snd (terminate_pipeline name w)) = pipeline_registry w \<or>
   pipeline_registry (snd (terminate_pipeline name w)) = AList.delete name (pipeline_registry w)"
proof (cases "map_of (pipeline_registry w) name")
  case None
  then have "name \<notin> set (map fst (pipeline_registry w))"
    by (simp add: map_of_eq_None_iff)
  then show ?thesis
    by (simp add: terminate_absent fields)
next
  case (Some ps)
  then show ?thesis
    using terminate_succeeds(2) [OF Some] terminate_unclean(2) [OF Some]
    by (cases "terminates_cleanly ps") simp_all
qed

lemma terminate_keeps_distinct:
  assumes "distinct (map fst (pipeline_registry w))"
  shows "distinct (map fst (pipeline_registry (snd (terminate_pipeline name w))))"
  using assms terminate_registry_cases [of name w] by (auto simp add: AList.distinct_delete)

lemma terminate_names_keeps_distinct:
  "distinct (map fst (pipeline_registry w)) \<Longrightarrow>
   distinct (map fst (pipeline_registry (snd (terminate_names names w))))"
proof (induction names arbitrary: w)
  case Nil
  then show ?case by simp
next
  case (Cons name names)
  obtain r w1 where t: "terminate_pipeline name w = (r, w1)"
    by (cases "terminate_pipeline name w")
  have d: "distinct (map fst (pipeline_registry w1))"
    using terminate_keeps_distinct [OF Cons.prems, of name] by (simp add: t)
  show ?case
    using d Cons.IH [OF d] by (simp add: t split: option.split sum.split)
qed

lemma terminate_all_keeps_distinct:
  assumes "distinct (map fst (pipeline_registry w))"
  shows "distinct (map fst (pipeline_registry (snd (terminate_all w))))"
proof -
  let ?w1 = "logger DEBUG ''Attempting to terminate all running pipelines...'' w"
  obtain r w2 where t: "terminate_names (map fst (pipeline_registry ?w1)) ?w1 = (r, w2)"
    by (cases "terminate_names (map fst (pipeline_registry ?w1)) ?w1")
  have "distinct (map fst (pipeline_registry ?w1))"
    using assms by (simp add: fields)
  then have "distinct (map fst (pipeline_registry w2))"
    using terminate_names_keeps_distinct [of ?w1 "map fst (pipeline_registry ?w1)"] by (simp add: t)
  then show ?thesis
    using t by (simp add: terminate_all_def Let_def fields split: option.split sum.split)
qed

section \<open>Properties of the event classes\<close>

lemma get_set_item: "get_item a key (set_item b key v h) = Some v" if "inner_dict a = inner_dict b"
  using that by (simp add: get_item_def set_item_def field_store_def AList.update_conv')

lemma from_class_inner_dict:
  "inner_dict (fst (from_class construct restore_defaults cls clazz h)) = inner_dict clazz"
  by (simp add: from_class_def Let_def split: prod.split)

text \<open>
  Claim C9. Whatever \<open>construct\<close> and \<open>_restore_defaults\<close> do, the instance returned by
  \<open>from_class\<close> refers to the very dict object that is the field store of the record it
  was made from. So in every later state the two have the same field store, and an
  item stored through either of them is read through the other.
\<close>

theorem from_class_shares_field_store:
  "inner_dict (fst (from_class construct restore_defaults cls clazz h)) = inner_dict clazz \<and>
   (\<forall>h' key v.
      field_store h' (fst (from_class construct restore_defaults cls clazz h)) =
        field_store h' clazz \<and>
      get_item clazz key
        (set_item (fst (from_class construct restore_defaults cls clazz h)) key v h') = Some v \<and>
      get_item (fst (from_class construct restore_defaults cls clazz h)) key
        (set_item clazz key v h') = Some v \<and>
      field_store (set_item (fst (from_class construct restore_defaults cls clazz h)) key v h') clazz =
        AList.update key v (field_store h' clazz))"
proof (intro conjI allI)
  let ?e = "fst (from_class construct restore_defaults cls clazz h)"
  show a: "inner_dict ?e = inner_dict clazz"
    by (rule from_class_inner_dict)
  show "field_store h' ?e = field_store h' clazz" for h'
    by (simp add: field_store_def a)
  show "get_item clazz key (set_item ?e key v h') = Some v" for h' key v
    by (rule get_set_item) (simp add: a)
  show "get_item ?e key (set_item clazz key v h') = Some v" for h' key v
    by (rule get_set_item) (simp add: a)
  show "field_store (set_item ?e key v h') clazz = AList.update key v (field_store h' clazz)"
    for h' key v
    by (simp add: field_store_def set_item_def a)
qed

lemma live_parameters:
  "(if ''parameters'' \<in> set (map fst (field_store h self))
    then the (map_of (field_store h self) ''parameters'') else PDict []) =
   (case get_item self ''parameters'' h of Some v \<Rightarrow> v | None \<Rightarrow> PDict [])"
proof (cases "get_item self ''parameters'' h")
  case None
  then have "''parameters'' \<notin> set (map fst (field_store h self))"
    by (simp add: get_item_def map_of_eq_None_iff)
  with None show ?thesis by simp
next
  case (Some v)
  then have "''parameters'' \<in> set (map fst (field_store h self))"
    unfolding get_item_def by (rule key_present)
  with Some show ?thesis by (simp add: get_item_def)
qed

text \<open>
  Claim C7. \<open>EntityChangeEvent.as_json\<close> hands to \<open>json.dumps\<close> the object returned by
  the strict serializer \<open>to_obj\<close> with one change: its \<open>parameters\<close> key holds the value
  that the event's field store holds under \<open>parameters\<close>, or the empty map when the
  field store has no such entry. Every other key keeps its value and its place; the
  \<open>parameters\<close> key keeps its place when \<open>to_obj\<close> produced one and is added last when it
  did not.
\<close>

theorem as_json_overwrites_parameters:
  "\<exists>json_obj.
     (\<forall>dumps. EntityChangeEvent_as_json to_obj dumps self h = dumps (PDict json_obj)) \<and>
     map_of json_obj ''parameters'' =
       Some (case get_item self ''parameters'' h of Some v \<Rightarrow> v | None \<Rightarrow> PDict []) \<and>
     AList.delete ''parameters'' json_obj = AList.delete ''parameters'' (to_obj self h) \<and>
     map fst json_obj =
       (if ''parameters'' \<in> set (map fst (to_obj self h)) then map fst (to_obj self h)
        else map fst (to_obj self h) @ [''parameters''])"
proof -
  let ?live = "case get_item self ''parameters'' h of Some v \<Rightarrow> v | None \<Rightarrow> PDict []"
  let ?obj = "AList.update ''parameters'' ?live (to_obj self h)"
  have "EntityChangeEvent_as_json to_obj dumps self h = dumps (PDict ?obj)" for dumps :: "pyval \<Rightarrow> 'a"
    by (simp only: EntityChangeEvent_as_json_def Let_def live_parameters)
  moreover have "map_of ?obj ''parameters'' = Some ?live"
    by (simp add: AList.update_conv')
  moreover have "AList.delete ''parameters'' ?obj = AList.delete ''parameters'' (to_obj self h)"
    by (rule AList.delete_update_same)
  moreover have "map fst ?obj =
       (if ''parameters'' \<in> set (map fst (to_obj self h)) then map fst (to_obj self h)
        else map fst (to_obj self h) @ [''parameters''])"
    by (rule AList.update_keys)
  ultimately show ?thesis by blast
qed

text \<open>
  An entity-change event whose \<open>parameters\<close> hold a nested structure, and a strict
  serializer that writes an empty record for them: the text keeps the nested value.
\<close>

lemma as_json_nested_parameters:
  "EntityChangeEvent_as_json
     (\<lambda>self h. [(''entityType'', PStr ''dataset''), (''parameters'', PDict []), (''version'', PInt 0)])
     (\<lambda>obj. obj)
     \<lparr>wrapper_class = EntityChangeEvent, inner_dict = 0\<rparr>
     \<lparr>dicts = (\<lambda>a. [])(0 := [(''entityType'', PStr ''dataset''),
                               (''parameters'', PDict [(''tag'', PDict [(''urn'', PStr ''pii'')])]),
                               (''version'', PInt 0)]),
      fresh = 1\<rparr> =
   PDict [(''entityType'', PStr ''dataset''),
          (''parameters'', PDict [(''tag'', PDict [(''urn'', PStr ''pii'')])]),
          (''version'', PInt 0)]"
  by (simp add: EntityChangeEvent_as_json_def field_store_def)

text \<open>
  \<open>as_json\<close> gives the same text for an event with no \<open>parameters\<close> entry and for one
  whose entry is the empty map, when the strict serializer does not tell them apart.
\<close>

theorem as_json_absent_or_empty_parameters:
  assumes "to_obj e1 h = to_obj e2 h"
    and "get_item e1 ''parameters'' h = None" and "get_item e2 ''parameters'' h = Some (PDict [])"
  shows "EntityChangeEvent_as_json to_obj dumps e1 h = EntityChangeEvent_as_json to_obj dumps e2 h"
  using assms by (simp only: EntityChangeEvent_as_json_def Let_def live_parameters) simp

theorem as_json_absent_or_empty_parameters_witness:
  "EntityChangeEvent_as_json (\<lambda>self h. [(''version'', PInt 0)]) (\<lambda>obj. obj)
     \<lparr>wrapper_class = EntityChangeEvent, inner_dict = 0\<rparr>
     \<lparr>dicts = (\<lambda>a. [])(1 := [(''parameters'', PDict [])]), fresh = 2\<rparr> =
   EntityChangeEvent_as_json (\<lambda>self h. [(''version'', PInt 0)]) (\<lambda>obj. obj)
     \<lparr>wrapper_class = EntityChangeEvent, inner_dict = 1\<rparr>
     \<lparr>dicts = (\<lambda>a. [])(1 := [(''parameters'', PDict [])]), fresh = 2\<rparr> \<and>
   field_store \<lparr>dicts = (\<lambda>a. [])(1 := [(''parameters'', PDict [])]), fresh = 2\<rparr>
     \<lparr>wrapper_class = EntityChangeEvent, inner_dict = 0\<rparr> \<noteq>
   field_store \<lparr>dicts = (\<lambda>a. [])(1 := [(''parameters'', PDict [])]), fresh = 2\<rparr>
     \<lparr>wrapper_class = EntityChangeEvent, inner_dict = 1\<rparr>"
  using as_json_absent_or_empty_parameters
    [of "\<lambda>self h. [(''version'', PInt 0)]"
        "\<lparr>wrapper_class = EntityChangeEvent, inner_dict = 0\<rparr>"
        "\<lparr>dicts = (\<lambda>a. [])(1 := [(''parameters'', PDict [])]), fresh = 2\<rparr>"
        "\<lparr>wrapper_class = EntityChangeEvent, inner_dict = 1\<rparr>" "\<lambda>obj. obj"]
  by (simp add: get_item_def field_store_def)

text \<open>
  With the two library functions as modelled, \<open>from_class\<close> leaves the field store of
  the record it is given as it was, and the defaults that \<open>_restore_defaults\<close> wrote
  are not in the field store of the returned instance: they went to the dict that
  \<open>construct\<close> made, which no instance refers to any more.
\<close>

lemma from_class_discards_defaults:
  assumes "inner_dict clazz < fresh h"
  shows "field_store (snd (from_class construct_new (restore_with defaults) cls clazz h))
           (fst (from_class construct_new (restore_with defaults) cls clazz h)) =
         field_store h clazz \<and>
         wrapper_class (fst (from_class construct_new (restore_with defaults) cls clazz h)) = cls \<and>
         fresh (snd (from_class construct_new (restore_with defaults) cls clazz h)) = Suc (fresh h)"
  using assms
  by (simp add: from_class_def construct_new_def restore_with_def field_store_def Let_def)

lemma from_class_discards_defaults_example:
  "field_store
     (snd (from_class construct_new (restore_with (\<lambda>c. [(''version'', PInt 0)])) EntityChangeEvent
             \<lparr>wrapper_class = EntityChangeEventClass, inner_dict = 0\<rparr>
             \<lparr>dicts = (\<lambda>a. [])(0 := [(''entityType'', PStr ''dataset'')]), fresh = 1\<rparr>))
     (fst (from_class construct_new (restore_with (\<lambda>c. [(''version'', PInt 0)])) EntityChangeEvent
             \<lparr>wrapper_class = EntityChangeEventClass, inner_dict = 0\<rparr>
             \<lparr>dicts = (\<lambda>a. [])(0 := [(''entityType'', PStr ''dataset'')]), fresh = 1\<rparr>)) =
   [(''entityType'', PStr ''dataset'')]"
  using from_class_discards_defaults
    [of "\<lparr>wrapper_class = EntityChangeEventClass, inner_dict = 0\<rparr>"
        "\<lparr>dicts = (\<lambda>a. [])(0 := [(''entityType'', PStr ''dataset'')]), fresh = 1\<rparr>"
        "\<lambda>c. [(''version'', PInt 0)]" EntityChangeEvent]
  by (simp add: field_store_def)

end
